theory Spec2Isabelle
  imports Main
begin

section \<open>Values, events and the object\<close>

text \<open>
  The file \<^verbatim>\<open>src/renderable/ui/uibaseelement.js\<close> defines the class
  \<^verbatim>\<open>UIBaseElement extends Container\<close>. Numbers are modelled as integers: the code
  only stores and compares them. A method returns either a boolean or nothing
  (\<^verbatim>\<open>undefined\<close>).
\<close>

datatype jsval = Undefined | Boolean bool

text \<open>The pointer event: the only property the class reads is \<^verbatim>\<open>event.button\<close>.\<close>

record Pointer =
  button :: int

text \<open>
  The part of the base class \<^verbatim>\<open>Container\<close> (\<^verbatim>\<open>../container.js\<close>) that the class touches:
  the constructor arguments and the \<^verbatim>\<open>dirty\<close> flag.
\<close>

record Container =
  pos_x :: int
  pos_y :: int
  width :: int
  height :: int
  dirty :: bool

record UIBaseElement = Container +
  isClickable :: bool
  holdThreshold :: int
  isHoldable :: bool
  hover :: bool
  holdTimeout :: int
  released :: bool
  floating :: bool
  isKinematic :: bool

text \<open>
  \<^verbatim>\<open>constructor(x, y, w, h)\<close>, lines 19-57. The base constructor
  \<^verbatim>\<open>super(x, y, w, h)\<close> is not part of the file, so it is a parameter.
\<close>

definition constructor ::
  "(int \<Rightarrow> int \<Rightarrow> int \<Rightarrow> int \<Rightarrow> Container) \<Rightarrow> int \<Rightarrow> int \<Rightarrow> int \<Rightarrow> int \<Rightarrow> UIBaseElement" where
  "constructor super x y w h =
     Container.extend (super x y w h)
       (UIBaseElement.fields
          True     \<comment> \<open>\<^verbatim>\<open>this.isClickable = true\<close>\<close>
          250      \<comment> \<open>\<^verbatim>\<open>this.holdThreshold = 250\<close>\<close>
          False    \<comment> \<open>\<^verbatim>\<open>this.isHoldable = false\<close>\<close>
          False    \<comment> \<open>\<^verbatim>\<open>this.hover = false\<close>\<close>
          (- 1)    \<comment> \<open>\<^verbatim>\<open>this.holdTimeout = -1\<close>\<close>
          True     \<comment> \<open>\<^verbatim>\<open>this.released = true\<close>\<close>
          True     \<comment> \<open>\<^verbatim>\<open>this.floating = true\<close>\<close>
          False)   \<comment> \<open>\<^verbatim>\<open>this.isKinematic = false\<close>\<close>"

section \<open>The collaborators: timer, pointer-event registry, base container\<close>

text \<open>
  The closures the class hands to its collaborators: \<^verbatim>\<open>() => this.hold()\<close> for the timer,
  and \<^verbatim>\<open>(e) => this.clicked(e)\<close>, \<^verbatim>\<open>(e) => this.release(e)\<close>, \<^verbatim>\<open>(e) => this.enter(e)\<close>,
  \<^verbatim>\<open>(e) => this.leave(e)\<close> for the registry.
\<close>

datatype timer_callback = Hold

datatype listener = Clicked | Release | Enter | Leave

text \<open>An object reference: the identity under which the registry files the listeners.\<close>

type_synonym ref = nat

text \<open>
  Every call that leaves the class (to a hook, the timer, the registry or the base class)
  is appended to a log, so that "is invoked" and "is never called" are statements about
  the log.
\<close>

datatype call =
    OnClick Pointer
  | OnOver Pointer
  | OnOut Pointer
  | OnRelease Pointer
  | OnHold
  | SetTimeout timer_callback int bool
  | ClearTimeout int
  | RegisterPointerEvent string ref listener
  | ReleasePointerEvent string ref
  | SuperOnActivateEvent
  | SuperOnDeactivateEvent

record timer_entry =
  handle :: int
  callback :: timer_callback
  delay :: int
  elapsed :: int

record world =
  this :: UIBaseElement
  self :: ref
  timers :: "timer_entry list"
  lastHandle :: int
  pointerEvents :: "(string \<times> ref \<times> listener) list"
  calls :: "call list"

text \<open>
  Modelled from the spec: the timer service \<^verbatim>\<open>../../system/timer.js\<close> is missing from the
  sources. The spec gives \<^verbatim>\<open>timer.setTimeout(callback, delayMs, repeat=false) -> handle\<close>
  and \<^verbatim>\<open>timer.clearTimeout(handle)\<close>, which "schedule/cancel a one-shot callback after a
  delay". Handles are drawn from a counter; cancelling removes the entry with that handle.
\<close>

definition timer_setTimeout :: "timer_callback \<Rightarrow> int \<Rightarrow> bool \<Rightarrow> world \<Rightarrow> int \<times> world" where
  "timer_setTimeout fn d rep s =
     (let h = lastHandle s + 1
      in (h, s\<lparr>timers := timers s @ [\<lparr>handle = h, callback = fn, delay = d, elapsed = 0\<rparr>],
                lastHandle := h,
                calls := calls s @ [SetTimeout fn d rep]\<rparr>))"

definition timer_clearTimeout :: "int \<Rightarrow> world \<Rightarrow> world" where
  "timer_clearTimeout h s =
     s\<lparr>timers := filter (\<lambda>t. handle t \<noteq> h) (timers s),
       calls := calls s @ [ClearTimeout h]\<rparr>"

text \<open>
  Modelled from the spec: the pointer-event registry \<^verbatim>\<open>./../../input/input.js\<close> is missing
  from the sources. The spec gives \<^verbatim>\<open>registerPointerEvent(eventName, targetObject, callback)\<close>
  and \<^verbatim>\<open>releasePointerEvent(eventName, targetObject)\<close>: register appends a listener for the
  event name and the target, release removes the listeners of that event name and target.
\<close>

definition registerPointerEvent :: "string \<Rightarrow> ref \<Rightarrow> listener \<Rightarrow> world \<Rightarrow> world" where
  "registerPointerEvent name target l s =
     s\<lparr>pointerEvents := pointerEvents s @ [(name, target, l)],
       calls := calls s @ [RegisterPointerEvent name target l]\<rparr>"

definition releasePointerEvent :: "string \<Rightarrow> ref \<Rightarrow> world \<Rightarrow> world" where
  "releasePointerEvent name target s =
     s\<lparr>pointerEvents := filter (\<lambda>(n, r, l). \<not> (n = name \<and> r = target)) (pointerEvents s),
       calls := calls s @ [ReleasePointerEvent name target]\<rparr>"

text \<open>
  Modelled from the spec: the base container's lifecycle hooks (\<^verbatim>\<open>../container.js\<close>) are
  missing from the sources. They are observable as calls only.
\<close>

definition super_onActivateEvent :: "world \<Rightarrow> world" where
  "super_onActivateEvent s = s\<lparr>calls := calls s @ [SuperOnActivateEvent]\<rparr>"

definition super_onDeactivateEvent :: "world \<Rightarrow> world" where
  "super_onDeactivateEvent s = s\<lparr>calls := calls s @ [SuperOnDeactivateEvent]\<rparr>"

section \<open>The methods of UIBaseElement\<close>

subsection \<open>The overridable hooks, as the class defines them\<close>

text \<open>\<^verbatim>\<open>onClick(event) { return false; }\<close>, lines 86-88.\<close>

definition onClick :: "Pointer \<Rightarrow> world \<Rightarrow> jsval \<times> world" where
  "onClick event s = (Boolean False, s\<lparr>calls := calls s @ [OnClick event]\<rparr>)"

text \<open>\<^verbatim>\<open>onOver(event) { }\<close>, lines 104-106.\<close>

definition onOver :: "Pointer \<Rightarrow> world \<Rightarrow> jsval \<times> world" where
  "onOver event s = (Undefined, s\<lparr>calls := calls s @ [OnOver event]\<rparr>)"

text \<open>\<^verbatim>\<open>onOut(event) { }\<close>, lines 123-125.\<close>

definition onOut :: "Pointer \<Rightarrow> world \<Rightarrow> jsval \<times> world" where
  "onOut event s = (Undefined, s\<lparr>calls := calls s @ [OnOut event]\<rparr>)"

text \<open>\<^verbatim>\<open>onRelease() { return false; }\<close>, lines 145-147; the caller passes the event.\<close>

definition onRelease :: "Pointer \<Rightarrow> world \<Rightarrow> jsval \<times> world" where
  "onRelease event s = (Boolean False, s\<lparr>calls := calls s @ [OnRelease event]\<rparr>)"

text \<open>\<^verbatim>\<open>onHold() {}\<close>, line 166.\<close>

definition onHold :: "world \<Rightarrow> world" where
  "onHold s = s\<lparr>calls := calls s @ [OnHold]\<rparr>"

subsection \<open>The event callbacks\<close>

text \<open>\<^verbatim>\<open>clicked(event)\<close>, lines 63-79.\<close>

definition clicked :: "Pointer \<Rightarrow> world \<Rightarrow> jsval \<times> world" where
  "clicked event s =
     (if button event = 0 \<and> isClickable (this s) then
        let s1 = s\<lparr>this := (this s)\<lparr>dirty := True\<rparr>\<rparr>;
            s2 = s1\<lparr>this := (this s1)\<lparr>released := False\<rparr>\<rparr>;
            s3 = (if isHoldable (this s2) then
                    let s4 = timer_clearTimeout (holdTimeout (this s2)) s2;
                        (h, s5) = timer_setTimeout Hold (holdThreshold (this s4)) False s4;
                        s6 = s5\<lparr>this := (this s5)\<lparr>holdTimeout := h\<rparr>\<rparr>
                    in s6\<lparr>this := (this s6)\<lparr>released := False\<rparr>\<rparr>
                  else s2)
        in onClick event s3
      else (Undefined, s))"

text \<open>\<^verbatim>\<open>enter(event)\<close>, lines 94-98.\<close>

definition enter :: "Pointer \<Rightarrow> world \<Rightarrow> jsval \<times> world" where
  "enter event s =
     (let s1 = s\<lparr>this := (this s)\<lparr>hover := True\<rparr>\<rparr>;
          s2 = s1\<lparr>this := (this s1)\<lparr>dirty := True\<rparr>\<rparr>
      in onOver event s2)"

text \<open>\<^verbatim>\<open>release(event)\<close>, lines 131-139.\<close>

definition release :: "Pointer \<Rightarrow> world \<Rightarrow> jsval \<times> world" where
  "release event s =
     (if released (this s) = False then
        let s1 = s\<lparr>this := (this s)\<lparr>released := True\<rparr>\<rparr>;
            s2 = s1\<lparr>this := (this s1)\<lparr>dirty := True\<rparr>\<rparr>;
            s3 = timer_clearTimeout (holdTimeout (this s2)) s2;
            s4 = s3\<lparr>this := (this s3)\<lparr>holdTimeout := - 1\<rparr>\<rparr>
        in onRelease event s4
      else (Undefined, s))"

text \<open>\<^verbatim>\<open>leave(event)\<close>, lines 112-117; the result of \<^verbatim>\<open>this.release(event)\<close> is dropped.\<close>

definition leave :: "Pointer \<Rightarrow> world \<Rightarrow> jsval \<times> world" where
  "leave event s =
     (let s1 = s\<lparr>this := (this s)\<lparr>hover := False\<rparr>\<rparr>;
          s2 = s1\<lparr>this := (this s1)\<lparr>dirty := True\<rparr>\<rparr>;
          s3 = snd (release event s2)
      in onOut event s3)"

text \<open>\<^verbatim>\<open>hold()\<close>, lines 153-160; it returns nothing.\<close>

definition hold :: "world \<Rightarrow> world" where
  "hold s =
     (let s1 = timer_clearTimeout (holdTimeout (this s)) s;
          s2 = s1\<lparr>this := (this s1)\<lparr>holdTimeout := - 1\<rparr>\<rparr>;
          s3 = s2\<lparr>this := (this s2)\<lparr>dirty := True\<rparr>\<rparr>
      in if \<not> released (this s3) then onHold s3 else s3)"

subsection \<open>Activation and deactivation\<close>

text \<open>\<^verbatim>\<open>onActivateEvent()\<close>, lines 172-182.\<close>

definition onActivateEvent :: "world \<Rightarrow> world" where
  "onActivateEvent s =
     (let s1 = registerPointerEvent ''pointerdown'' (self s) Clicked s;
          s2 = registerPointerEvent ''pointerup'' (self s1) Release s1;
          s3 = registerPointerEvent ''pointercancel'' (self s2) Release s2;
          s4 = registerPointerEvent ''pointerenter'' (self s3) Enter s3;
          s5 = registerPointerEvent ''pointerleave'' (self s4) Leave s4
      in super_onActivateEvent s5)"

text \<open>\<^verbatim>\<open>onDeactivateEvent()\<close>, lines 188-201.\<close>

definition onDeactivateEvent :: "world \<Rightarrow> world" where
  "onDeactivateEvent s =
     (let s1 = releasePointerEvent ''pointerdown'' (self s) s;
          s2 = releasePointerEvent ''pointerup'' (self s1) s1;
          s3 = releasePointerEvent ''pointercancel'' (self s2) s2;
          s4 = releasePointerEvent ''pointerenter'' (self s3) s3;
          s5 = releasePointerEvent ''pointerleave'' (self s4) s4;
          s6 = timer_clearTimeout (holdTimeout (this s5)) s5;
          s7 = s6\<lparr>this := (this s6)\<lparr>holdTimeout := - 1\<rparr>\<rparr>
      in super_onDeactivateEvent s7)"

section \<open>Running the collaborators\<close>

text \<open>What a registered listener does when the registry delivers an event to it.\<close>

fun listener_apply :: "listener \<Rightarrow> Pointer \<Rightarrow> world \<Rightarrow> jsval \<times> world" where
  "listener_apply Clicked e s = clicked e s"
| "listener_apply Release e s = release e s"
| "listener_apply Enter e s = enter e s"
| "listener_apply Leave e s = leave e s"

text \<open>What a scheduled timer callback does when the timer fires it.\<close>

fun timer_fire :: "timer_callback \<Rightarrow> world \<Rightarrow> world" where
  "timer_fire Hold s = hold s"

text \<open>
  Modelled from the spec: the passage of \<open>dt\<close> milliseconds in the missing timer service.
  Every pending entry ages by \<open>dt\<close>; the entries whose delay has elapsed are one-shot, so
  they leave the table, and their callbacks run in the order they were scheduled.
\<close>

definition timer_update :: "int \<Rightarrow> world \<Rightarrow> world" where
  "timer_update dt s =
     (let aged = map (\<lambda>t. t\<lparr>elapsed := elapsed t + dt\<rparr>) (timers s);
          due = filter (\<lambda>t. delay t \<le> elapsed t) aged;
          s1 = s\<lparr>timers := filter (\<lambda>t. \<not> delay t \<le> elapsed t) aged\<rparr>
      in fold (\<lambda>t. timer_fire (callback t)) due s1)"

text \<open>Time passing in several steps.\<close>

definition wait :: "int list \<Rightarrow> world \<Rightarrow> world" where
  "wait dts s = fold timer_update dts s"

text \<open>A run of press events, each delivered to \<open>clicked\<close>.\<close>

definition presses :: "Pointer list \<Rightarrow> world \<Rightarrow> world" where
  "presses es s = fold (\<lambda>e s. snd (clicked e s)) es s"

section \<open>Invariants and observations\<close>

text \<open>The invariant of the data model: a released object has no hold-timer handle.\<close>

definition released_inv :: "UIBaseElement \<Rightarrow> bool" where
  "released_inv w \<longleftrightarrow> (released w \<longrightarrow> holdTimeout w = - 1)"

text \<open>
  The timer handle is owned by the object: every entry pending in the timer service is the
  one whose handle the object holds.
\<close>

definition timers_owned :: "world \<Rightarrow> bool" where
  "timers_owned s \<longleftrightarrow> (\<forall>t \<in> set (timers s). handle t = holdTimeout (this s))"

text \<open>The same invariant on the side of the timer service: released means nothing is pending.\<close>

definition idle_when_released :: "world \<Rightarrow> bool" where
  "idle_when_released s \<longleftrightarrow> timers_owned s \<and> (released (this s) \<longrightarrow> timers s = [])"

text \<open>Recognisers for entries of the call log.\<close>

fun isSetTimeout :: "call \<Rightarrow> bool" where
  "isSetTimeout (SetTimeout fn d rep) = True"
| "isSetTimeout _ = False"

fun isOnRelease :: "call \<Rightarrow> bool" where
  "isOnRelease (OnRelease e) = True"
| "isOnRelease _ = False"

text \<open>The five event names of \<^verbatim>\<open>onActivateEvent\<close> and \<^verbatim>\<open>onDeactivateEvent\<close>.\<close>

definition pointer_event_names :: "string list" where
  "pointer_event_names =
     [''pointerdown'', ''pointerup'', ''pointercancel'', ''pointerenter'', ''pointerleave'']"

section \<open>Sample inputs\<close>

text \<open>
  Concrete inputs for running the definitions: a base constructor that stores its
  arguments, a world in which nothing has happened yet, a button as constructed, the same
  button with \<^verbatim>\<open>isHoldable\<close> switched on, and a primary and a secondary button event.
\<close>

definition sample_super :: "int \<Rightarrow> int \<Rightarrow> int \<Rightarrow> int \<Rightarrow> Container" where
  "sample_super x y w h = \<lparr>pos_x = x, pos_y = y, width = w, height = h, dirty = False\<rparr>"

definition fresh_world :: "UIBaseElement \<Rightarrow> world" where
  "fresh_world w =
     \<lparr>this = w, self = 1, timers = [], lastHandle = 0, pointerEvents = [], calls = []\<rparr>"

definition sample_button :: world where
  "sample_button = fresh_world (constructor sample_super 10 20 100 40)"

definition sample_holdable :: world where
  "sample_holdable = fresh_world ((constructor sample_super 10 20 100 40)\<lparr>isHoldable := True\<rparr>)"

definition primary :: Pointer where
  "primary = \<lparr>button = 0\<rparr>"

definition secondary :: Pointer where
  "secondary = \<lparr>button = 2\<rparr>"

section \<open>Unfolding the definitions\<close>

lemmas collab_defs = timer_setTimeout_def timer_clearTimeout_def registerPointerEvent_def
  releasePointerEvent_def super_onActivateEvent_def super_onDeactivateEvent_def

lemmas hook_defs = onClick_def onOver_def onOut_def onRelease_def onHold_def

lemmas method_defs = clicked_def enter_def leave_def release_def hold_def
  onActivateEvent_def onDeactivateEvent_def

lemmas sample_defs = sample_super_def fresh_world_def sample_button_def sample_holdable_def
  primary_def secondary_def constructor_def Container.extend_def UIBaseElement.fields_def

section \<open>Construction\<close>

text \<open>
  C9: after construction with any \<open>(x, y, w, h)\<close> the fields are isClickable = true,
  holdThreshold = 250, isHoldable = false, hover = false, released = true,
  holdTimeout = -1, floating = true and isKinematic = false.
\<close>

theorem constructor_fields:
  "isClickable (constructor super x y w h) = True \<and>
   holdThreshold (constructor super x y w h) = 250 \<and>
   isHoldable (constructor super x y w h) = False \<and>
   hover (constructor super x y w h) = False \<and>
   released (constructor super x y w h) = True \<and>
   holdTimeout (constructor super x y w h) = - 1 \<and>
   floating (constructor super x y w h) = True \<and>
   isKinematic (constructor super x y w h) = False"
  by (simp add: constructor_def Container.extend_def UIBaseElement.fields_def)

section \<open>The press handler\<close>

lemma clicked_holdable:
  "button e = 0 \<Longrightarrow> isClickable (this s) \<Longrightarrow> isHoldable (this s) \<Longrightarrow>
   clicked e s = (Boolean False,
     s\<lparr>this := (this s)\<lparr>dirty := True, released := False, holdTimeout := lastHandle s + 1\<rparr>,
       timers := filter (\<lambda>t. handle t \<noteq> holdTimeout (this s)) (timers s) @
                 [\<lparr>handle = lastHandle s + 1, callback = Hold,
                   delay = holdThreshold (this s), elapsed = 0\<rparr>],
       lastHandle := lastHandle s + 1,
       calls := calls s @ [ClearTimeout (holdTimeout (this s)),
                           SetTimeout Hold (holdThreshold (this s)) False, OnClick e]\<rparr>)"
  by (simp add: clicked_def Let_def collab_defs hook_defs)

text \<open>
  C5: for an event with \<open>button \<noteq> 0\<close>, and likewise when isClickable is false, the press
  handler is a no-op: it returns nothing and the whole state is as before, so released, the
  dirty flag, the hover flag and the timer handle are unchanged and onClick is not invoked.
\<close>

theorem clicked_gated:
  assumes "button event \<noteq> 0 \<or> \<not> isClickable (this s)"
  shows "clicked event s = (Undefined, s) \<and>
    released (this (snd (clicked event s))) = released (this s) \<and>
    dirty (this (snd (clicked event s))) = dirty (this s) \<and>
    hover (this (snd (clicked event s))) = hover (this s) \<and>
    holdTimeout (this (snd (clicked event s))) = holdTimeout (this s) \<and>
    calls (snd (clicked event s)) = calls s"
proof -
  from assms have "clicked event s = (Undefined, s)"
    by (auto simp add: clicked_def)
  then show ?thesis by simp
qed

theorem clicked_gated_witness:
  "clicked secondary sample_button = (Undefined, sample_button) \<and>
   clicked primary (sample_button\<lparr>this := (this sample_button)\<lparr>isClickable := False\<rparr>\<rparr>) =
     (Undefined, sample_button\<lparr>this := (this sample_button)\<lparr>isClickable := False\<rparr>\<rparr>)"
proof -
  have "button secondary \<noteq> 0"
    by (simp add: secondary_def)
  then have a: "clicked secondary sample_button = (Undefined, sample_button)"
    using clicked_gated [of secondary sample_button] by blast
  let ?off = "sample_button\<lparr>this := (this sample_button)\<lparr>isClickable := False\<rparr>\<rparr>"
  have "\<not> isClickable (this ?off)"
    by simp
  then have "clicked primary ?off = (Undefined, ?off)"
    using clicked_gated [of primary ?off] by blast
  with a show ?thesis by blast
qed

section \<open>The hover flag\<close>

text \<open>
  C10: the hover flag is written by the enter and leave handlers only (enter sets it, leave
  clears it); for every state and event, clicked, release and hold leave it as it was, and so
  do activation and deactivation.
\<close>

theorem hover_frame:
  "hover (this (snd (clicked e s))) = hover (this s) \<and>
   hover (this (snd (release e s))) = hover (this s) \<and>
   hover (this (hold s)) = hover (this s) \<and>
   hover (this (onActivateEvent s)) = hover (this s) \<and>
   hover (this (onDeactivateEvent s)) = hover (this s) \<and>
   hover (this (snd (enter e s))) = True \<and>
   hover (this (snd (leave e s))) = False"
  by (simp add: method_defs Let_def collab_defs hook_defs split: prod.splits)

section \<open>Release and leave\<close>

lemma release_released: "released (this s) \<Longrightarrow> release e s = (Undefined, s)"
  by (simp add: release_def)

lemma released_after_release: "released (this (snd (release e s)))"
  by (simp add: release_def Let_def collab_defs hook_defs)

lemma calls_release:
  "calls (snd (release e s)) =
     calls s @ (if released (this s) then [] else [ClearTimeout (holdTimeout (this s)), OnRelease e])"
  by (simp add: release_def Let_def collab_defs hook_defs)

text \<open>
  C2: release is idempotent. When released is false it sets released, marks the object
  dirty, cancels the hold timer and clears its handle, and its result is the result of the
  onRelease hook, invoked once on that state. When released is true it returns nothing and
  changes nothing. A second release right after a first one is therefore a no-op, and the
  two together invoke onRelease once if a press was outstanding (and not at all otherwise).
\<close>

theorem release_idempotent:
  "(released (this s) = False \<longrightarrow>
      release e s = onRelease e ((timer_clearTimeout (holdTimeout (this s)) s)
         \<lparr>this := (this s)\<lparr>released := True, dirty := True, holdTimeout := - 1\<rparr>\<rparr>) \<and>
      fst (release e s) = Boolean False \<and>
      released (this (snd (release e s))) = True \<and>
      dirty (this (snd (release e s))) = True \<and>
      holdTimeout (this (snd (release e s))) = - 1 \<and>
      timers (snd (release e s)) = filter (\<lambda>t. handle t \<noteq> holdTimeout (this s)) (timers s) \<and>
      calls (snd (release e s)) = calls s @ [ClearTimeout (holdTimeout (this s)), OnRelease e]) \<and>
   (released (this s) = True \<longrightarrow> release e s = (Undefined, s)) \<and>
   release e' (snd (release e s)) = (Undefined, snd (release e s)) \<and>
   length (filter isOnRelease (calls (snd (release e' (snd (release e s)))))) =
     length (filter isOnRelease (calls s)) + (if released (this s) = False then 1 else 0)"
proof -
  have twice: "release e' (snd (release e s)) = (Undefined, snd (release e s))"
    by (rule release_released) (rule released_after_release)
  have once: "length (filter isOnRelease (calls (snd (release e s)))) =
      length (filter isOnRelease (calls s)) + (if released (this s) = False then 1 else 0)"
    by (simp add: calls_release)
  have pressed: "released (this s) = False \<longrightarrow>
      release e s = onRelease e ((timer_clearTimeout (holdTimeout (this s)) s)
         \<lparr>this := (this s)\<lparr>released := True, dirty := True, holdTimeout := - 1\<rparr>\<rparr>) \<and>
      fst (release e s) = Boolean False \<and>
      released (this (snd (release e s))) = True \<and>
      dirty (this (snd (release e s))) = True \<and>
      holdTimeout (this (snd (release e s))) = - 1 \<and>
      timers (snd (release e s)) = filter (\<lambda>t. handle t \<noteq> holdTimeout (this s)) (timers s) \<and>
      calls (snd (release e s)) = calls s @ [ClearTimeout (holdTimeout (this s)), OnRelease e]"
    by (simp add: release_def Let_def collab_defs hook_defs)
  have idle: "released (this s) = True \<longrightarrow> release e s = (Undefined, s)"
    by (simp add: release_def)
  from twice once
  have both: "length (filter isOnRelease (calls (snd (release e' (snd (release e s)))))) =
      length (filter isOnRelease (calls s)) + (if released (this s) = False then 1 else 0)"
    by simp
  from pressed idle twice both show ?thesis by blast
qed

theorem release_idempotent_witness:
  "released (this (snd (clicked primary sample_button))) = False \<and>
   fst (release primary (snd (clicked primary sample_button))) = Boolean False \<and>
   length (filter isOnRelease
     (calls (snd (release primary (snd (release primary (snd (clicked primary sample_button)))))))) = 1 \<and>
   released (this sample_button) = True \<and>
   release primary sample_button = (Undefined, sample_button)"
proof -
  let ?p = "snd (clicked primary sample_button)"
  have pressed: "released (this ?p) = False"
    by (simp add: sample_defs clicked_def hook_defs)
  have quiet: "length (filter isOnRelease (calls ?p)) = 0"
    by (simp add: sample_defs clicked_def hook_defs)
  have idle: "released (this sample_button) = True"
    by (simp add: sample_defs)
  from pressed release_idempotent [of ?p primary primary]
  have result: "fst (release primary ?p) = Boolean False"
    by blast
  from release_idempotent [of ?p primary primary]
  have "length (filter isOnRelease (calls (snd (release primary (snd (release primary ?p)))))) =
      length (filter isOnRelease (calls ?p)) + (if released (this ?p) = False then 1 else 0)"
    by blast
  with pressed quiet
  have once: "length (filter isOnRelease
      (calls (snd (release primary (snd (release primary ?p)))))) = 1"
    by simp
  from idle release_idempotent [of sample_button primary primary]
  have "release primary sample_button = (Undefined, sample_button)"
    by blast
  with result once show ?thesis using pressed idle by blast
qed

text \<open>
  C6: for every state, leave clears hover, marks the object dirty, performs a release and
  then invokes the onOut hook, whose result it returns. Afterwards released is true; if a
  press was active, its hold timer is cancelled and the handle cleared.
\<close>

theorem leave_releases:
  "leave e s = onOut e (snd (release e (s\<lparr>this := (this s)\<lparr>hover := False, dirty := True\<rparr>\<rparr>))) \<and>
   fst (leave e s) = Undefined \<and>
   hover (this (snd (leave e s))) = False \<and>
   dirty (this (snd (leave e s))) = True \<and>
   released (this (snd (leave e s))) = True \<and>
   calls (snd (leave e s)) =
     calls s @ (if released (this s) then [] else [ClearTimeout (holdTimeout (this s)), OnRelease e])
       @ [OnOut e] \<and>
   (released (this s) = False \<longrightarrow>
      holdTimeout (this (snd (leave e s))) = - 1 \<and>
      timers (snd (leave e s)) = filter (\<lambda>t. handle t \<noteq> holdTimeout (this s)) (timers s))"
  by (simp add: leave_def release_def Let_def collab_defs hook_defs)

theorem leave_releases_witness:
  "timers (snd (clicked primary sample_holdable)) =
     [\<lparr>handle = 1, callback = Hold, delay = 250, elapsed = 0\<rparr>] \<and>
   released (this (snd (clicked primary sample_holdable))) = False \<and>
   released (this (snd (leave primary (snd (clicked primary sample_holdable))))) = True \<and>
   holdTimeout (this (snd (leave primary (snd (clicked primary sample_holdable))))) = - 1 \<and>
   timers (snd (leave primary (snd (clicked primary sample_holdable)))) = []"
proof -
  let ?p = "snd (clicked primary sample_holdable)"
  have p: "timers ?p = [\<lparr>handle = 1, callback = Hold, delay = 250, elapsed = 0\<rparr>]"
      "released (this ?p) = False" "holdTimeout (this ?p) = 1"
    by (simp_all add: sample_defs clicked_def Let_def collab_defs hook_defs)
  from p(2) leave_releases [of primary ?p]
  have "released (this (snd (leave primary ?p))) = True \<and>
      holdTimeout (this (snd (leave primary ?p))) = - 1 \<and>
      timers (snd (leave primary ?p)) = filter (\<lambda>t. handle t \<noteq> holdTimeout (this ?p)) (timers ?p)"
    by blast
  with p show ?thesis by simp
qed

section \<open>Activation and deactivation\<close>

text \<open>
  C8: onActivateEvent makes exactly five registrations under the object's identity
  (pointerdown to clicked, pointerup and pointercancel to release, pointerenter to enter,
  pointerleave to leave) and then calls the base activation; it touches neither the object
  nor the timer. Each of the five listeners, when an event \<open>e\<close> is delivered to it in any
  state \<open>x\<close>, runs the method it is registered for. onDeactivateEvent releases the same five event names under the same
  identity, cancels the hold timer and clears its handle, and then calls the base
  deactivation. When the object had no registration before, deactivation after activation
  leaves the registry as it was.
\<close>

theorem activation_registers_five:
  "calls (onActivateEvent s) = calls s @
     [RegisterPointerEvent ''pointerdown'' (self s) Clicked,
      RegisterPointerEvent ''pointerup'' (self s) Release,
      RegisterPointerEvent ''pointercancel'' (self s) Release,
      RegisterPointerEvent ''pointerenter'' (self s) Enter,
      RegisterPointerEvent ''pointerleave'' (self s) Leave,
      SuperOnActivateEvent] \<and>
   pointerEvents (onActivateEvent s) = pointerEvents s @
     [(''pointerdown'', self s, Clicked), (''pointerup'', self s, Release),
      (''pointercancel'', self s, Release), (''pointerenter'', self s, Enter),
      (''pointerleave'', self s, Leave)] \<and>
   this (onActivateEvent s) = this s \<and> timers (onActivateEvent s) = timers s \<and>
   map (\<lambda>(n, r, l). (n, r, listener_apply l e x))
       (drop (length (pointerEvents s)) (pointerEvents (onActivateEvent s))) =
     [(''pointerdown'', self s, clicked e x), (''pointerup'', self s, release e x),
      (''pointercancel'', self s, release e x), (''pointerenter'', self s, enter e x),
      (''pointerleave'', self s, leave e x)] \<and>
   calls (onDeactivateEvent s) = calls s @
     [ReleasePointerEvent ''pointerdown'' (self s),
      ReleasePointerEvent ''pointerup'' (self s),
      ReleasePointerEvent ''pointercancel'' (self s),
      ReleasePointerEvent ''pointerenter'' (self s),
      ReleasePointerEvent ''pointerleave'' (self s),
      ClearTimeout (holdTimeout (this s)),
      SuperOnDeactivateEvent] \<and>
   pointerEvents (onDeactivateEvent s) =
     filter (\<lambda>(n, r, l). \<not> (r = self s \<and> n \<in> set pointer_event_names)) (pointerEvents s) \<and>
   holdTimeout (this (onDeactivateEvent s)) = - 1 \<and>
   timers (onDeactivateEvent s) = filter (\<lambda>t. handle t \<noteq> holdTimeout (this s)) (timers s) \<and>
   ((\<forall>(n, r, l) \<in> set (pointerEvents s). r \<noteq> self s) \<longrightarrow>
      pointerEvents (onDeactivateEvent (onActivateEvent s)) = pointerEvents s)"
proof -
  have act: "calls (onActivateEvent s) = calls s @
     [RegisterPointerEvent ''pointerdown'' (self s) Clicked,
      RegisterPointerEvent ''pointerup'' (self s) Release,
      RegisterPointerEvent ''pointercancel'' (self s) Release,
      RegisterPointerEvent ''pointerenter'' (self s) Enter,
      RegisterPointerEvent ''pointerleave'' (self s) Leave,
      SuperOnActivateEvent] \<and>
    pointerEvents (onActivateEvent s) = pointerEvents s @
     [(''pointerdown'', self s, Clicked), (''pointerup'', self s, Release),
      (''pointercancel'', self s, Release), (''pointerenter'', self s, Enter),
      (''pointerleave'', self s, Leave)] \<and>
    this (onActivateEvent s) = this s \<and> timers (onActivateEvent s) = timers s"
    by (simp add: onActivateEvent_def Let_def collab_defs)
  from act
  have deliver: "map (\<lambda>(n, r, l). (n, r, listener_apply l e x))
       (drop (length (pointerEvents s)) (pointerEvents (onActivateEvent s))) =
     [(''pointerdown'', self s, clicked e x), (''pointerup'', self s, release e x),
      (''pointercancel'', self s, release e x), (''pointerenter'', self s, enter e x),
      (''pointerleave'', self s, leave e x)]"
    by simp
  have self_act: "self (onActivateEvent s) = self s"
    by (simp add: onActivateEvent_def Let_def collab_defs)
  have deact_calls: "calls (onDeactivateEvent s) = calls s @
     [ReleasePointerEvent ''pointerdown'' (self s),
      ReleasePointerEvent ''pointerup'' (self s),
      ReleasePointerEvent ''pointercancel'' (self s),
      ReleasePointerEvent ''pointerenter'' (self s),
      ReleasePointerEvent ''pointerleave'' (self s),
      ClearTimeout (holdTimeout (this s)),
      SuperOnDeactivateEvent] \<and>
    holdTimeout (this (onDeactivateEvent s)) = - 1 \<and>
    timers (onDeactivateEvent s) = filter (\<lambda>t. handle t \<noteq> holdTimeout (this s)) (timers s)"
    by (simp add: onDeactivateEvent_def Let_def collab_defs)
  have deact_events: "pointerEvents (onDeactivateEvent x) =
     filter (\<lambda>(n, r, l). \<not> (r = self x \<and> n \<in> set pointer_event_names)) (pointerEvents x)" for x
    by (auto simp add: onDeactivateEvent_def Let_def collab_defs pointer_event_names_def
        intro!: filter_cong)
  have round: "pointerEvents (onDeactivateEvent (onActivateEvent s)) = pointerEvents s"
    if "\<forall>(n, r, l) \<in> set (pointerEvents s). r \<noteq> self s"
  proof -
    from that have "filter (\<lambda>(n, r, l). \<not> (r = self s \<and> n \<in> set pointer_event_names))
        (pointerEvents s) = pointerEvents s"
      by (auto simp add: filter_id_conv)
    then show ?thesis
      using act self_act by (simp add: deact_events pointer_event_names_def)
  qed
  from act deliver deact_calls deact_events [of s] round show ?thesis by blast
qed

theorem activation_registers_five_witness:
  "pointerEvents (onActivateEvent sample_button) =
     [(''pointerdown'', 1, Clicked), (''pointerup'', 1, Release),
      (''pointercancel'', 1, Release), (''pointerenter'', 1, Enter),
      (''pointerleave'', 1, Leave)] \<and>
   map (\<lambda>(n, r, l). (n, r, listener_apply l primary sample_button))
       (pointerEvents (onActivateEvent sample_button)) =
     [(''pointerdown'', 1, clicked primary sample_button),
      (''pointerup'', 1, release primary sample_button),
      (''pointercancel'', 1, release primary sample_button),
      (''pointerenter'', 1, enter primary sample_button),
      (''pointerleave'', 1, leave primary sample_button)] \<and>
   pointerEvents (onDeactivateEvent (onActivateEvent sample_button)) = []"
proof -
  have empty: "pointerEvents sample_button = []" and me: "self sample_button = 1"
    by (simp_all add: sample_defs)
  from activation_registers_five [of sample_button primary sample_button]
  have "map (\<lambda>(n, r, l). (n, r, listener_apply l primary sample_button))
       (drop (length (pointerEvents sample_button)) (pointerEvents (onActivateEvent sample_button))) =
     [(''pointerdown'', self sample_button, clicked primary sample_button),
      (''pointerup'', self sample_button, release primary sample_button),
      (''pointercancel'', self sample_button, release primary sample_button),
      (''pointerenter'', self sample_button, enter primary sample_button),
      (''pointerleave'', self sample_button, leave primary sample_button)]"
    by blast
  with empty me
  have deliver: "map (\<lambda>(n, r, l). (n, r, listener_apply l primary sample_button))
       (pointerEvents (onActivateEvent sample_button)) =
     [(''pointerdown'', 1, clicked primary sample_button),
      (''pointerup'', 1, release primary sample_button),
      (''pointercancel'', 1, release primary sample_button),
      (''pointerenter'', 1, enter primary sample_button),
      (''pointerleave'', 1, leave primary sample_button)]"
    by simp
  from empty have "\<forall>(n, r, l) \<in> set (pointerEvents sample_button). r \<noteq> self sample_button"
    by simp
  with activation_registers_five [of sample_button]
  have "pointerEvents (onActivateEvent sample_button) = pointerEvents sample_button @
     [(''pointerdown'', self sample_button, Clicked), (''pointerup'', self sample_button, Release),
      (''pointercancel'', self sample_button, Release), (''pointerenter'', self sample_button, Enter),
      (''pointerleave'', self sample_button, Leave)] \<and>
    pointerEvents (onDeactivateEvent (onActivateEvent sample_button)) = pointerEvents sample_button"
    by blast
  with empty me deliver show ?thesis by simp
qed

section \<open>The invariant\<close>

text \<open>
  C3: the invariant "released implies holdTimeout = -1" holds after construction and is
  preserved by clicked, enter, leave, release, hold, onActivateEvent and
  onDeactivateEvent. The same holds on the side of the timer service: when the timer
  entries are the object's own and a released object has none pending, this is so again
  after each of the seven operations.
\<close>

theorem released_inv_preserved:
  "released_inv (constructor super x y w h) \<and>
   (released_inv (this s) \<longrightarrow>
      released_inv (this (snd (clicked e s))) \<and>
      released_inv (this (snd (enter e s))) \<and>
      released_inv (this (snd (leave e s))) \<and>
      released_inv (this (snd (release e s))) \<and>
      released_inv (this (hold s)) \<and>
      released_inv (this (onActivateEvent s)) \<and>
      released_inv (this (onDeactivateEvent s))) \<and>
   idle_when_released (fresh_world (constructor super x y w h)) \<and>
   (idle_when_released s \<longrightarrow>
      idle_when_released (snd (clicked e s)) \<and>
      idle_when_released (snd (enter e s)) \<and>
      idle_when_released (snd (leave e s)) \<and>
      idle_when_released (snd (release e s)) \<and>
      idle_when_released (hold s) \<and>
      idle_when_released (onActivateEvent s) \<and>
      idle_when_released (onDeactivateEvent s))"
proof -
  have init: "released_inv (constructor super x y w h)"
    by (simp add: released_inv_def constructor_def Container.extend_def UIBaseElement.fields_def)
  have init_idle: "idle_when_released (fresh_world (constructor super x y w h))"
    by (simp add: idle_when_released_def timers_owned_def fresh_world_def)
  have fields: "released_inv (this (snd (clicked e s))) \<and>
      released_inv (this (snd (enter e s))) \<and>
      released_inv (this (snd (leave e s))) \<and>
      released_inv (this (snd (release e s))) \<and>
      released_inv (this (hold s)) \<and>
      released_inv (this (onActivateEvent s)) \<and>
      released_inv (this (onDeactivateEvent s))" if "released_inv (this s)"
    using that
    by (simp add: released_inv_def method_defs Let_def collab_defs hook_defs split: prod.splits)
  have service: "idle_when_released (snd (clicked e s)) \<and>
      idle_when_released (snd (enter e s)) \<and>
      idle_when_released (snd (leave e s)) \<and>
      idle_when_released (snd (release e s)) \<and>
      idle_when_released (hold s) \<and>
      idle_when_released (onActivateEvent s) \<and>
      idle_when_released (onDeactivateEvent s)" if "idle_when_released s"
    using that
    by (auto simp add: idle_when_released_def timers_owned_def method_defs Let_def collab_defs
        hook_defs split: prod.splits)
  from init init_idle fields service show ?thesis by blast
qed

theorem released_inv_preserved_witness:
  "released_inv (this sample_button) \<and>
   released_inv (this (snd (clicked primary sample_button))) \<and>
   released_inv (this (snd (release primary (snd (clicked primary sample_button))))) \<and>
   idle_when_released sample_holdable \<and>
   idle_when_released (snd (clicked primary sample_holdable))"
proof -
  have a: "released_inv (this sample_button)"
    by (simp add: released_inv_def sample_defs)
  have b: "idle_when_released sample_holdable"
    by (simp add: idle_when_released_def timers_owned_def sample_defs)
  from a have c: "released_inv (this (snd (clicked primary sample_button)))"
    using released_inv_preserved [of sample_super 10 20 100 40 sample_button primary] by blast
  then have d: "released_inv (this (snd (release primary (snd (clicked primary sample_button)))))"
    using released_inv_preserved
      [of sample_super 10 20 100 40 "snd (clicked primary sample_button)" primary] by blast
  from b have "idle_when_released (snd (clicked primary sample_holdable))"
    using released_inv_preserved [of sample_super 10 20 100 40 sample_holdable primary] by blast
  with a b c d show ?thesis by simp
qed

section \<open>The hold timer\<close>

lemma owned_filter:
  "timers_owned s \<Longrightarrow> filter (\<lambda>t. handle t \<noteq> holdTimeout (this s)) (timers s) = []"
  by (auto simp add: timers_owned_def filter_empty_conv)

lemma timer_fire_hold: "timer_fire fn s = hold s"
  by (cases fn) simp

lemma timers_hold:
  "timers (hold s) = filter (\<lambda>t. handle t \<noteq> holdTimeout (this s)) (timers s)"
  by (simp add: hold_def Let_def collab_defs hook_defs)

lemma timer_update_idle: "timers s = [] \<Longrightarrow> timer_update dt s = s"
  by (simp add: timer_update_def)

lemma timer_update_early:
  "timers s = [t] \<Longrightarrow> elapsed t + dt < delay t \<Longrightarrow>
   timer_update dt s = s\<lparr>timers := [t\<lparr>elapsed := elapsed t + dt\<rparr>]\<rparr>"
  by (simp add: timer_update_def)

lemma timer_update_due:
  "timers s = [t] \<Longrightarrow> delay t \<le> elapsed t + dt \<Longrightarrow>
   timer_update dt s = hold (s\<lparr>timers := []\<rparr>)"
  by (simp add: timer_update_def timer_fire_hold)

lemma wait_Cons: "wait (d # ds) s = wait ds (timer_update d s)"
  by (simp add: wait_def)

lemma wait_idle: "timers s = [] \<Longrightarrow> wait dts s = s"
  by (induction dts) (simp_all add: wait_def timer_update_idle)

text \<open>
  One pending entry, and time passing in steps: the callback runs in the first step at
  which the delay has elapsed, and the table is empty from then on.
\<close>

lemma wait_armed:
  "timers s = [t] \<Longrightarrow> \<forall>d \<in> set dts. 0 \<le> d \<Longrightarrow>
   wait dts s =
     (if dts \<noteq> [] \<and> delay t \<le> elapsed t + sum_list dts
      then hold (s\<lparr>timers := []\<rparr>)
      else s\<lparr>timers := [t\<lparr>elapsed := elapsed t + sum_list dts\<rparr>]\<rparr>)"
proof (induction dts arbitrary: s t)
  case Nil
  then show ?case by (cases s) (simp add: wait_def)
next
  case (Cons d ds)
  show ?case
  proof (cases "delay t \<le> elapsed t + d")
    case True
    have nonneg: "0 \<le> sum_list ds"
      using Cons.prems(2) by (simp add: sum_list_nonneg)
    have "timer_update d s = hold (s\<lparr>timers := []\<rparr>)"
      using Cons.prems(1) True by (simp add: timer_update_due)
    moreover have "timers (hold (s\<lparr>timers := []\<rparr>)) = []"
      by (simp add: timers_hold)
    ultimately have "wait (d # ds) s = hold (s\<lparr>timers := []\<rparr>)"
      by (simp add: wait_Cons wait_idle)
    with True nonneg show ?thesis by simp
  next
    case False
    let ?t = "t\<lparr>elapsed := elapsed t + d\<rparr>"
    let ?s = "s\<lparr>timers := [?t]\<rparr>"
    have step: "timer_update d s = ?s"
      using Cons.prems(1) False by (simp add: timer_update_early)
    have "wait ds ?s =
      (if ds \<noteq> [] \<and> delay ?t \<le> elapsed ?t + sum_list ds
       then hold (?s\<lparr>timers := []\<rparr>)
       else ?s\<lparr>timers := [?t\<lparr>elapsed := elapsed ?t + sum_list ds\<rparr>]\<rparr>)"
      using Cons.prems(2) by (intro Cons.IH) simp_all
    with step False show ?thesis
      by (cases "ds = []") (simp_all add: wait_Cons add.assoc)
  qed
qed

lemma press_then_wait:
  assumes "button e = 0" "isClickable (this s)" "isHoldable (this s)" "timers_owned s"
    and "\<forall>d \<in> set dts. 0 \<le> d"
  shows "wait dts (snd (clicked e s)) =
     (if dts \<noteq> [] \<and> holdThreshold (this s) \<le> sum_list dts
      then hold ((snd (clicked e s))\<lparr>timers := []\<rparr>)
      else (snd (clicked e s))\<lparr>timers :=
             [\<lparr>handle = lastHandle s + 1, callback = Hold,
               delay = holdThreshold (this s), elapsed = sum_list dts\<rparr>]\<rparr>)"
proof -
  let ?t = "\<lparr>handle = lastHandle s + 1, callback = Hold,
             delay = holdThreshold (this s), elapsed = 0\<rparr>"
  have "timers (snd (clicked e s)) = [?t]"
    using assms(1-4) by (simp add: clicked_holdable owned_filter)
  from wait_armed [OF this assms(5)] show ?thesis by simp
qed

text \<open>
  A press cycle of a holdable object, from a state in which the timer entries are the
  object's own. Released before the threshold has elapsed: onHold is not invoked, neither
  before the release nor at any time after it. Held until the threshold has elapsed:
  onHold is invoked once, and a later release and more waiting add no second invocation.
\<close>

lemma press_cycle:
  assumes pre: "button e = 0" "isClickable (this s)" "isHoldable (this s)" "timers_owned s"
      "\<forall>d \<in> set dts. 0 \<le> d"
  shows "(sum_list dts < holdThreshold (this s) \<longrightarrow>
         count_list (calls (wait dts (snd (clicked e s)))) OnHold = count_list (calls s) OnHold \<and>
         count_list (calls (wait dts' (snd (release e' (wait dts (snd (clicked e s))))))) OnHold =
           count_list (calls s) OnHold) \<and>
      (dts \<noteq> [] \<and> holdThreshold (this s) \<le> sum_list dts \<longrightarrow>
         count_list (calls (wait dts (snd (clicked e s)))) OnHold = count_list (calls s) OnHold + 1 \<and>
         count_list (calls (wait dts' (snd (release e' (wait dts (snd (clicked e s))))))) OnHold =
           count_list (calls s) OnHold + 1)"
proof -
  let ?p = "snd (clicked e s)"
  have p: "calls ?p = calls s @ [ClearTimeout (holdTimeout (this s)),
        SetTimeout Hold (holdThreshold (this s)) False, OnClick e]"
      "released (this ?p) = False" "holdTimeout (this ?p) = lastHandle s + 1"
    by (simp_all add: clicked_holdable [OF pre(1-3)])
  show ?thesis
  proof (cases "dts \<noteq> [] \<and> holdThreshold (this s) \<le> sum_list dts")
    case True
    then have w: "wait dts ?p = hold (?p\<lparr>timers := []\<rparr>)"
      by (simp add: press_then_wait [OF pre])
    have "calls (wait dts ?p) = calls ?p @ [ClearTimeout (lastHandle s + 1), OnHold]"
      and "timers (wait dts ?p) = []"
      unfolding w using p by (simp_all add: hold_def Let_def collab_defs hook_defs)
    moreover from this(2)
    have "calls (wait dts' (snd (release e' (wait dts ?p)))) =
        calls (wait dts ?p) @ (if released (this (wait dts ?p)) then []
           else [ClearTimeout (holdTimeout (this (wait dts ?p))), OnRelease e'])"
      by (simp add: wait_idle release_def Let_def collab_defs hook_defs)
    ultimately show ?thesis using True p(1) by simp
  next
    case False
    let ?q = "?p\<lparr>timers := [\<lparr>handle = lastHandle s + 1, callback = Hold,
             delay = holdThreshold (this s), elapsed = sum_list dts\<rparr>]\<rparr>"
    from False have w: "wait dts ?p = ?q"
      by (auto simp add: press_then_wait [OF pre])
    have "calls (wait dts' (snd (release e' ?q))) =
        calls ?p @ [ClearTimeout (lastHandle s + 1), OnRelease e']"
      using p by (simp add: wait_idle release_def Let_def collab_defs hook_defs)
    with False w p(1) show ?thesis by auto
  qed
qed

text \<open>
  C1: for every state, the fire handler hold cancels the timer, sets the handle back to -1,
  marks the object dirty, and invokes onHold if and only if released is false at that
  moment. Consequently, for a holdable and clickable object, a primary press and a release
  before the threshold has elapsed never invokes onHold, and a press held until the
  threshold has elapsed invokes onHold exactly once in that press cycle. Time passes in
  steps \<open>dts\<close> (none negative) after the press and \<open>dts'\<close> after the release.
\<close>

theorem hold_fires_onHold:
  "holdTimeout (this (hold s)) = - 1 \<and> dirty (this (hold s)) = True \<and>
   timers (hold s) = filter (\<lambda>t. handle t \<noteq> holdTimeout (this s)) (timers s) \<and>
   calls (hold s) =
     calls s @ ClearTimeout (holdTimeout (this s)) # (if released (this s) = False then [OnHold] else []) \<and>
   (button e = 0 \<and> isClickable (this s) \<and> isHoldable (this s) \<and> timers_owned s \<and>
    (\<forall>d \<in> set dts. 0 \<le> d) \<longrightarrow>
      (sum_list dts < holdThreshold (this s) \<longrightarrow>
         count_list (calls (wait dts (snd (clicked e s)))) OnHold = count_list (calls s) OnHold \<and>
         count_list (calls (wait dts' (snd (release e' (wait dts (snd (clicked e s))))))) OnHold =
           count_list (calls s) OnHold) \<and>
      (dts \<noteq> [] \<and> holdThreshold (this s) \<le> sum_list dts \<longrightarrow>
         count_list (calls (wait dts (snd (clicked e s)))) OnHold = count_list (calls s) OnHold + 1 \<and>
         count_list (calls (wait dts' (snd (release e' (wait dts (snd (clicked e s))))))) OnHold =
           count_list (calls s) OnHold + 1))"
proof -
  have fire: "holdTimeout (this (hold s)) = - 1 \<and> dirty (this (hold s)) = True \<and>
      timers (hold s) = filter (\<lambda>t. handle t \<noteq> holdTimeout (this s)) (timers s) \<and>
      calls (hold s) =
        calls s @ ClearTimeout (holdTimeout (this s)) # (if released (this s) = False then [OnHold] else [])"
    by (simp add: hold_def Let_def collab_defs hook_defs)
  from fire press_cycle [of e s dts dts' e'] show ?thesis by blast
qed

theorem hold_fires_onHold_witness:
  "count_list (calls (wait [400] (snd (release primary
      (wait [60, 40] (snd (clicked primary sample_holdable))))))) OnHold = 0 \<and>
   count_list (calls (wait [100, 150] (snd (clicked primary sample_holdable)))) OnHold = 1 \<and>
   count_list (calls (wait [400] (snd (release primary
      (wait [100, 150] (snd (clicked primary sample_holdable))))))) OnHold = 1"
proof -
  have pre: "button primary = 0 \<and> isClickable (this sample_holdable) \<and>
      isHoldable (this sample_holdable) \<and> timers_owned sample_holdable"
    by (simp add: sample_defs timers_owned_def)
  have thr: "holdThreshold (this sample_holdable) = 250" and none: "calls sample_holdable = []"
    by (simp_all add: sample_defs)
  have early: "(\<forall>d \<in> set [60, 40 :: int]. 0 \<le> d) \<and> sum_list [60, 40 :: int] < 250"
    by simp
  have late: "(\<forall>d \<in> set [100, 150 :: int]. 0 \<le> d) \<and> [100, 150 :: int] \<noteq> [] \<and>
      250 \<le> sum_list [100, 150 :: int]"
    by simp
  from pre early hold_fires_onHold [of sample_holdable primary "[60, 40]" "[400]" primary]
  have a: "count_list (calls (wait [400] (snd (release primary
      (wait [60, 40] (snd (clicked primary sample_holdable))))))) OnHold =
      count_list (calls sample_holdable) OnHold"
    unfolding thr by blast
  from pre late hold_fires_onHold [of sample_holdable primary "[100, 150]" "[400]" primary]
  have b: "count_list (calls (wait [100, 150] (snd (clicked primary sample_holdable)))) OnHold =
      count_list (calls sample_holdable) OnHold + 1 \<and>
    count_list (calls (wait [400] (snd (release primary
      (wait [100, 150] (snd (clicked primary sample_holdable))))))) OnHold =
      count_list (calls sample_holdable) OnHold + 1"
    unfolding thr by blast
  from a b show ?thesis by (simp add: none)
qed

section \<open>The invariant over time\<close>

text \<open>
  The hypothesis of the press cycle is an invariant of the timer service as well: when the
  entries are the object's own and a released object has none pending, this is so again
  after any passage of time.
\<close>

lemma idle_when_released_hold: "idle_when_released s \<Longrightarrow> idle_when_released (hold s)"
  by (auto simp add: idle_when_released_def timers_owned_def hold_def Let_def collab_defs hook_defs)

lemma idle_when_released_fires:
  "idle_when_released s \<Longrightarrow> idle_when_released (fold (\<lambda>t. timer_fire (callback t)) ts s)"
  by (induction ts arbitrary: s) (simp_all add: timer_fire_hold idle_when_released_hold)

lemma idle_when_released_timer_update:
  "idle_when_released s \<Longrightarrow> idle_when_released (timer_update dt s)"
  unfolding timer_update_def Let_def
  by (rule idle_when_released_fires) (auto simp add: idle_when_released_def timers_owned_def)

lemma idle_when_released_wait: "idle_when_released s \<Longrightarrow> idle_when_released (wait dts s)"
  by (induction dts arbitrary: s) (simp_all add: wait_def idle_when_released_timer_update)

section \<open>Deactivation with a pending timer\<close>

text \<open>
  C4, as stated, fails: deactivation cancels the timer and clears the handle, but it does
  not release the press, so a hold fired by hand after it finds released = false and
  invokes onHold. Here the holdable sample button is pressed (one timer is pending),
  deactivated, and then hold is called.
\<close>

theorem deactivation_then_hold_counterexample:
  "timers (snd (clicked primary sample_holdable)) =
     [\<lparr>handle = 1, callback = Hold, delay = 250, elapsed = 0\<rparr>] \<and>
   holdTimeout (this (onDeactivateEvent (snd (clicked primary sample_holdable)))) = - 1 \<and>
   count_list (calls (onDeactivateEvent (snd (clicked primary sample_holdable)))) OnHold = 0 \<and>
   count_list (calls (hold (onDeactivateEvent (snd (clicked primary sample_holdable))))) OnHold = 1"
  by (simp add: sample_defs method_defs Let_def collab_defs hook_defs)

text \<open>
  C4, amended: after onDeactivateEvent the handle is -1 and the entry of the old handle is
  gone from the timer service; when the entries were the object's own, none is pending, so
  no passage of time fires the hold callback. Deactivation leaves released as it was, and a
  hold fired by hand after deactivation invokes onHold exactly when released is false.
\<close>

theorem deactivation_cancels_timer:
  "holdTimeout (this (onDeactivateEvent s)) = - 1 \<and>
   timers (onDeactivateEvent s) = filter (\<lambda>t. handle t \<noteq> holdTimeout (this s)) (timers s) \<and>
   released (this (onDeactivateEvent s)) = released (this s) \<and>
   (timers_owned s \<longrightarrow>
      timers (onDeactivateEvent s) = [] \<and>
      wait dts (onDeactivateEvent s) = onDeactivateEvent s) \<and>
   calls (hold (onDeactivateEvent s)) =
     calls (onDeactivateEvent s) @
       ClearTimeout (- 1) # (if released (this s) = False then [OnHold] else [])"
proof -
  have fields: "holdTimeout (this (onDeactivateEvent s)) = - 1 \<and>
      timers (onDeactivateEvent s) = filter (\<lambda>t. handle t \<noteq> holdTimeout (this s)) (timers s) \<and>
      released (this (onDeactivateEvent s)) = released (this s)"
    by (simp add: onDeactivateEvent_def Let_def collab_defs)
  have quiet: "timers (onDeactivateEvent s) = [] \<and>
      wait dts (onDeactivateEvent s) = onDeactivateEvent s" if "timers_owned s"
  proof -
    from fields that have "timers (onDeactivateEvent s) = []"
      by (simp add: owned_filter)
    then show ?thesis by (simp add: wait_idle)
  qed
  have fired: "calls (hold (onDeactivateEvent s)) =
      calls (onDeactivateEvent s) @
        ClearTimeout (- 1) # (if released (this s) = False then [OnHold] else [])"
    by (simp add: hold_def onDeactivateEvent_def Let_def collab_defs hook_defs)
  from fields quiet fired show ?thesis by blast
qed

theorem deactivation_cancels_timer_witness:
  "timers (snd (clicked primary sample_holdable)) =
     [\<lparr>handle = 1, callback = Hold, delay = 250, elapsed = 0\<rparr>] \<and>
   timers (onDeactivateEvent (snd (clicked primary sample_holdable))) = [] \<and>
   wait [250, 1000] (onDeactivateEvent (snd (clicked primary sample_holdable))) =
     onDeactivateEvent (snd (clicked primary sample_holdable))"
proof -
  let ?p = "snd (clicked primary sample_holdable)"
  have p: "timers ?p = [\<lparr>handle = 1, callback = Hold, delay = 250, elapsed = 0\<rparr>]"
      "holdTimeout (this ?p) = 1"
    by (simp_all add: sample_defs clicked_def Let_def collab_defs hook_defs)
  then have "timers_owned ?p"
    by (simp add: timers_owned_def)
  with deactivation_cancels_timer [of ?p "[250, 1000]"]
  have "timers (onDeactivateEvent ?p) = [] \<and>
      wait [250, 1000] (onDeactivateEvent ?p) = onDeactivateEvent ?p"
    by blast
  with p(1) show ?thesis by blast
qed

section \<open>Arming the hold timer\<close>

lemma presses_Cons: "presses (e # es) s = presses es (snd (clicked e s))"
  by (simp add: presses_def)

lemma presses_not_holdable:
  "\<not> isHoldable (this s) \<Longrightarrow>
   timers (presses es s) = timers s \<and> lastHandle (presses es s) = lastHandle s \<and>
   holdTimeout (this (presses es s)) = holdTimeout (this s) \<and>
   filter isSetTimeout (calls (presses es s)) = filter isSetTimeout (calls s)"
proof (induction es arbitrary: s)
  case Nil
  then show ?case by (simp add: presses_def)
next
  case (Cons e es)
  let ?s = "snd (clicked e s)"
  have step: "timers ?s = timers s \<and> lastHandle ?s = lastHandle s \<and>
     holdTimeout (this ?s) = holdTimeout (this s) \<and> isHoldable (this ?s) = isHoldable (this s) \<and>
     filter isSetTimeout (calls ?s) = filter isSetTimeout (calls s)"
    using Cons.prems by (simp add: clicked_def Let_def hook_defs)
  with Cons.IH [of ?s] Cons.prems show ?case
    by (simp add: presses_Cons)
qed

lemma repress:
  assumes "button e = 0" "isClickable (this s)" "isHoldable (this s)" "timers_owned s"
  shows "timers (snd (clicked e s)) =
       [\<lparr>handle = lastHandle s + 1, callback = Hold,
         delay = holdThreshold (this s), elapsed = 0\<rparr>]"
    and "timers_owned (snd (clicked e s))"
  using assms by (simp_all add: clicked_holdable owned_filter timers_owned_def)

text \<open>
  C7: when isHoldable is false, no run of press events arms a hold timer: the timer table,
  the handle counter and holdTimeout stay as they were (so a handle of -1 stays -1) and the
  log gains no setTimeout call. When isHoldable is true, a primary press on a clickable
  object cancels the entry of the old handle and appends one new entry, whose handle it
  stores; when the entries were the object's own, exactly one is pending afterwards, also
  after a second press, and a press repeated before the threshold has elapsed leads to one
  invocation of onHold, not two.
\<close>

theorem hold_timer_arming:
  "(\<not> isHoldable (this s) \<longrightarrow>
      timers (presses es s) = timers s \<and> lastHandle (presses es s) = lastHandle s \<and>
      holdTimeout (this (presses es s)) = holdTimeout (this s) \<and>
      filter isSetTimeout (calls (presses es s)) = filter isSetTimeout (calls s)) \<and>
   (button e = 0 \<and> isClickable (this s) \<and> isHoldable (this s) \<longrightarrow>
      timers (snd (clicked e s)) =
        filter (\<lambda>t. handle t \<noteq> holdTimeout (this s)) (timers s) @
        [\<lparr>handle = lastHandle s + 1, callback = Hold,
          delay = holdThreshold (this s), elapsed = 0\<rparr>] \<and>
      holdTimeout (this (snd (clicked e s))) = lastHandle s + 1 \<and>
      calls (snd (clicked e s)) =
        calls s @ [ClearTimeout (holdTimeout (this s)),
                   SetTimeout Hold (holdThreshold (this s)) False, OnClick e] \<and>
      (timers_owned s \<longrightarrow>
         timers (snd (clicked e s)) =
           [\<lparr>handle = lastHandle s + 1, callback = Hold,
             delay = holdThreshold (this s), elapsed = 0\<rparr>] \<and>
         (button e2 = 0 \<longrightarrow>
            timers (snd (clicked e2 (snd (clicked e s)))) =
              [\<lparr>handle = lastHandle s + 2, callback = Hold,
                delay = holdThreshold (this s), elapsed = 0\<rparr>] \<and>
            ((\<forall>d \<in> set dts. 0 \<le> d) \<and> sum_list dts < holdThreshold (this s) \<and>
             (\<forall>d \<in> set dts2. 0 \<le> d) \<and> dts2 \<noteq> [] \<and> holdThreshold (this s) \<le> sum_list dts2 \<longrightarrow>
               count_list (calls (wait dts2 (snd (clicked e2 (wait dts (snd (clicked e s))))))) OnHold =
                 count_list (calls s) OnHold + 1))))"
proof -
  have press: "timers (snd (clicked e s)) =
        filter (\<lambda>t. handle t \<noteq> holdTimeout (this s)) (timers s) @
        [\<lparr>handle = lastHandle s + 1, callback = Hold,
          delay = holdThreshold (this s), elapsed = 0\<rparr>] \<and>
      holdTimeout (this (snd (clicked e s))) = lastHandle s + 1 \<and>
      calls (snd (clicked e s)) =
        calls s @ [ClearTimeout (holdTimeout (this s)),
                   SetTimeout Hold (holdThreshold (this s)) False, OnClick e]"
    if "button e = 0" "isClickable (this s)" "isHoldable (this s)"
    using that by (simp add: clicked_holdable)
  have again: "timers (snd (clicked e2 (snd (clicked e s)))) =
        [\<lparr>handle = lastHandle s + 2, callback = Hold,
          delay = holdThreshold (this s), elapsed = 0\<rparr>]"
    if pre: "button e = 0" "isClickable (this s)" "isHoldable (this s)" "timers_owned s"
      and e2: "button e2 = 0"
  proof -
    let ?p = "snd (clicked e s)"
    have p: "isClickable (this ?p)" "isHoldable (this ?p)"
        "holdThreshold (this ?p) = holdThreshold (this s)" "lastHandle ?p = lastHandle s + 1"
      using pre(1-3) by (simp_all add: clicked_holdable)
    from repress(1) [OF e2 p(1,2) repress(2) [OF pre]] p(3,4) show ?thesis by simp
  qed
  have once: "count_list (calls (wait dts2 (snd (clicked e2 (wait dts (snd (clicked e s))))))) OnHold =
        count_list (calls s) OnHold + 1"
    if pre: "button e = 0" "isClickable (this s)" "isHoldable (this s)" "timers_owned s"
      and e2: "button e2 = 0"
      and early: "\<forall>d \<in> set dts. 0 \<le> d" "sum_list dts < holdThreshold (this s)"
      and late: "\<forall>d \<in> set dts2. 0 \<le> d" "dts2 \<noteq> []" "holdThreshold (this s) \<le> sum_list dts2"
  proof -
    let ?p = "snd (clicked e s)"
    let ?q = "wait dts ?p"
    from early(2) have q: "?q = ?p\<lparr>timers := [\<lparr>handle = lastHandle s + 1, callback = Hold,
        delay = holdThreshold (this s), elapsed = sum_list dts\<rparr>]\<rparr>"
      by (auto simp add: press_then_wait [OF pre early(1)])
    have q_this: "isClickable (this ?q)" "isHoldable (this ?q)"
        "holdThreshold (this ?q) = holdThreshold (this s)" "timers_owned ?q"
      unfolding q using pre(1-3) by (simp_all add: clicked_holdable timers_owned_def)
    have "count_list (calls ?q) OnHold = count_list (calls s) OnHold"
      using press_cycle [OF pre early(1), where dts' = dts and e' = e] early(2) by simp
    moreover have "count_list (calls (wait dts2 (snd (clicked e2 ?q)))) OnHold =
        count_list (calls ?q) OnHold + 1"
      using press_cycle [OF e2 q_this(1,2,4) late(1), where dts' = dts2 and e' = e2] late(2,3) q_this(3)
      by simp
    ultimately show ?thesis by simp
  qed
  from presses_not_holdable [of s es] press repress(1) [of e s] again once
  show ?thesis by blast
qed

theorem hold_timer_arming_witness:
  "timers (presses [primary, secondary, primary] sample_button) = [] \<and>
   holdTimeout (this (presses [primary, secondary, primary] sample_button)) = - 1 \<and>
   filter isSetTimeout (calls (presses [primary, secondary, primary] sample_button)) = [] \<and>
   timers (snd (clicked primary (snd (clicked primary sample_holdable)))) =
     [\<lparr>handle = 2, callback = Hold, delay = 250, elapsed = 0\<rparr>] \<and>
   count_list (calls (wait [200, 100]
     (snd (clicked primary (wait [100] (snd (clicked primary sample_holdable))))))) OnHold = 1"
proof -
  have plain: "\<not> isHoldable (this sample_button)" "timers sample_button = []"
      "holdTimeout (this sample_button) = - 1" "calls sample_button = []"
    by (simp_all add: sample_defs)
  have pre: "button primary = 0 \<and> isClickable (this sample_holdable) \<and>
      isHoldable (this sample_holdable)" "timers_owned sample_holdable"
    by (simp_all add: sample_defs timers_owned_def)
  have start: "lastHandle sample_holdable = 0" "holdThreshold (this sample_holdable) = 250"
      "calls sample_holdable = []"
    by (simp_all add: sample_defs)
  have times: "(\<forall>d \<in> set [100 :: int]. 0 \<le> d) \<and> sum_list [100 :: int] < 250 \<and>
      (\<forall>d \<in> set [200, 100 :: int]. 0 \<le> d) \<and> [200, 100 :: int] \<noteq> [] \<and>
      250 \<le> sum_list [200, 100 :: int]"
    by simp
  from plain(1)
    hold_timer_arming [of sample_button "[primary, secondary, primary]" primary primary "[]" "[]"]
  have a: "timers (presses [primary, secondary, primary] sample_button) = timers sample_button \<and>
      holdTimeout (this (presses [primary, secondary, primary] sample_button)) =
        holdTimeout (this sample_button) \<and>
      filter isSetTimeout (calls (presses [primary, secondary, primary] sample_button)) =
        filter isSetTimeout (calls sample_button)"
    by blast
  from pre times
    hold_timer_arming [of sample_holdable "[]" primary primary "[100]" "[200, 100]"]
  have b: "timers (snd (clicked primary (snd (clicked primary sample_holdable)))) =
        [\<lparr>handle = lastHandle sample_holdable + 2, callback = Hold,
          delay = holdThreshold (this sample_holdable), elapsed = 0\<rparr>] \<and>
      count_list (calls (wait [200, 100]
        (snd (clicked primary (wait [100] (snd (clicked primary sample_holdable))))))) OnHold =
        count_list (calls sample_holdable) OnHold + 1"
    unfolding start(2) by blast
  from a b show ?thesis by (simp add: plain start)
qed

end
